theory Spec2Isabelle
  imports Main
begin

section \<open>The VW audit pretty-printer (DataScience/vw\_audit\_pp.py)\<close>

text \<open>
  The program runs the external command \<^verbatim>\<open>vw ... --audit\<close>, reads its standard output as
  one text, collects the coefficient fragments of every line that holds more than one
  tab-separated token, puts them in a pandas data frame indexed by
  (Namespace\<^verbatim>\<open>^\<close>Feature, HashValue, FeatureValue), drops the rows whose index occurred
  before, writes the frame to a file and returns it.

  A Python \<^verbatim>\<open>str\<close> is a sequence of Unicode code points, so a text is a list of natural
  numbers here; \<open>STR8\<close> reads a literal.
\<close>

subsection \<open>Texts, errors and what the program prints\<close>

type_synonym str = "nat list"

definition STR8 :: "string \<Rightarrow> str" where
  "STR8 s = map of_char s"

datatype error =
    IndexError
  | KeyError
  | ValueError
  | OSError
  | CalledProcessError
  | UnicodeDecodeError

type_synonym dict = "(str \<times> str) list"

datatype label = RangeIx nat | MultiIx "str list"

record DataFrame =
  index_names :: "str list"
  columns :: "str list"
  rows :: "(label \<times> dict) list"

text \<open>
  What a run does besides returning: the calls of \<^verbatim>\<open>print\<close>, one constructor for each
  call in the source with the values it is given, and the file that \<^verbatim>\<open>to_csv\<close> writes.
\<close>

datatype event =
    PrintCommand str
  | PrintOutput str
  | PrintLine int str
  | PrintNumCoefficients nat
  | PrintCoefficients "str list"
  | ToCsv str DataFrame

fun is_print :: "event \<Rightarrow> bool" where
  "is_print (ToCsv f d) = False"
| "is_print e = True"

subsection \<open>The methods of str that the program calls\<close>

text \<open>
  \<^verbatim>\<open>str.splitlines()\<close> ends a line at each of the line boundaries of Python (LF, VT, FF,
  CR, FS, GS, RS, NEL, LS, PS), takes CR LF as one boundary, drops the boundaries and gives
  no empty last line.
\<close>

definition is_linebreak :: "nat \<Rightarrow> bool" where
  "is_linebreak c \<longleftrightarrow>
     c = 0x0A \<or> c = 0x0B \<or> c = 0x0C \<or> c = 0x0D \<or> c = 0x1C \<or> c = 0x1D \<or> c = 0x1E \<or>
     c = 0x85 \<or> c = 0x2028 \<or> c = 0x2029"

fun splitlines_from :: "str \<Rightarrow> str \<Rightarrow> str list" where
  "splitlines_from cur [] = (if cur = [] then [] else [cur])"
| "splitlines_from cur (c # cs) =
     (if is_linebreak c then
        (case cs of
           d # ds \<Rightarrow>
             if c = 0x0D \<and> d = 0x0A then cur # splitlines_from [] ds
             else cur # splitlines_from [] cs
         | [] \<Rightarrow> cur # splitlines_from [] cs)
      else splitlines_from (cur @ [c]) cs)"

definition str_splitlines :: "str \<Rightarrow> str list" where
  "str_splitlines s = splitlines_from [] s"

text \<open>
  \<^verbatim>\<open>str.strip()\<close> removes the white space at both ends; the tab is white space.
\<close>

definition is_space :: "nat \<Rightarrow> bool" where
  "is_space c \<longleftrightarrow>
     (0x09 \<le> c \<and> c \<le> 0x0D) \<or> (0x1C \<le> c \<and> c \<le> 0x20) \<or> c = 0x85 \<or> c = 0xA0 \<or>
     c = 0x1680 \<or> (0x2000 \<le> c \<and> c \<le> 0x200A) \<or> c = 0x2028 \<or> c = 0x2029 \<or>
     c = 0x202F \<or> c = 0x205F \<or> c = 0x3000"

definition str_strip :: "str \<Rightarrow> str" where
  "str_strip s = rev (dropWhile is_space (rev (dropWhile is_space s)))"

text \<open>
  \<^verbatim>\<open>s.split(sep)\<close> with a separator of one character: the pieces between the separators,
  empty pieces included, so the result is never empty.
\<close>

fun str_split :: "nat \<Rightarrow> str \<Rightarrow> str list" where
  "str_split sep [] = [[]]"
| "str_split sep (c # cs) =
     (if c = sep then [] # str_split sep cs
      else (case str_split sep cs of
              w # ws \<Rightarrow> (c # w) # ws
            | [] \<Rightarrow> [[c]]))"

definition TAB :: nat where
  "TAB = 0x09"

definition COLON :: nat where
  "COLON = 0x3A"

text \<open>
  \<^verbatim>\<open>template.format(name=value, ...)\<close> for the templates of this program: text with
  fields \<^verbatim>\<open>{name}\<close>. The second argument is the field name being read, if any. (Doubled
  braces, conversions and format specifications do not occur in the templates and are not
  modelled.)
\<close>

fun format_from :: "dict \<Rightarrow> str option \<Rightarrow> str \<Rightarrow> error + str" where
  "format_from kw None [] = Inr []"
| "format_from kw (Some f) [] = Inl ValueError"
| "format_from kw None (c # cs) =
     (if c = 0x7B then format_from kw (Some []) cs
      else if c = 0x7D then Inl ValueError
      else (case format_from kw None cs of
              Inl e \<Rightarrow> Inl e
            | Inr r \<Rightarrow> Inr (c # r)))"
| "format_from kw (Some f) (c # cs) =
     (if c = 0x7D then
        (case map_of kw f of
           None \<Rightarrow> Inl KeyError
         | Some v \<Rightarrow>
             (case format_from kw None cs of
                Inl e \<Rightarrow> Inl e
              | Inr r \<Rightarrow> Inr (v @ r)))
      else format_from kw (Some (f @ [c])) cs)"

definition str_format :: "str \<Rightarrow> dict \<Rightarrow> error + str" where
  "str_format template kw = format_from kw None template"

subsection \<open>The pandas operations that the program calls\<close>

text \<open>
  \<^verbatim>\<open>pd.DataFrame(records)\<close> for a list of dictionaries: the columns are the keys in the
  order in which they first occur, the index is the position, and every dictionary is a
  row. With no dictionary there is no column. (Every dictionary of this program has the
  same four keys, so no cell is missing.)
\<close>

fun first_seen :: "'a list \<Rightarrow> 'a list \<Rightarrow> 'a list" where
  "first_seen seen [] = []"
| "first_seen seen (x # xs) =
     (if x \<in> set seen then first_seen seen xs else x # first_seen (x # seen) xs)"

definition DataFrame_of :: "dict list \<Rightarrow> DataFrame" where
  "DataFrame_of records =
     \<lparr>index_names = [],
      columns = first_seen [] (concat (map (map fst) records)),
      rows = map (\<lambda>(i, d). (RangeIx i, d)) (enumerate 0 records)\<rparr>"

text \<open>
  \<^verbatim>\<open>df.set_index(keys, inplace=True)\<close>: a key that is no column raises KeyError; otherwise
  the key columns leave the columns and their values, in the order of the keys, become the
  index of each row.
\<close>

definition cell :: "dict \<Rightarrow> str \<Rightarrow> str" where
  "cell d k = (case map_of d k of Some v \<Rightarrow> v | None \<Rightarrow> [])"

definition set_index :: "str list \<Rightarrow> DataFrame \<Rightarrow> error + DataFrame" where
  "set_index keys df =
     (if \<exists>k \<in> set keys. k \<notin> set (columns df) then Inl KeyError
      else Inr
        \<lparr>index_names = keys,
         columns = filter (\<lambda>c. c \<notin> set keys) (columns df),
         rows = map (\<lambda>(ix, d). (MultiIx (map (cell d) keys),
                                  filter (\<lambda>(c, v). c \<notin> set keys) d)) (rows df)\<rparr>)"

text \<open>
  \<^verbatim>\<open>index.duplicated(keep='first')\<close> marks every label that occurred at an earlier
  position; \<^verbatim>\<open>df[~marks]\<close> keeps the rows whose mark is False.
\<close>

fun duplicated_from :: "'a list \<Rightarrow> 'a list \<Rightarrow> bool list" where
  "duplicated_from seen [] = []"
| "duplicated_from seen (x # xs) = (x \<in> set seen) # duplicated_from (x # seen) xs"

definition duplicated_first :: "'a list \<Rightarrow> bool list" where
  "duplicated_first ixs = duplicated_from [] ixs"

definition select_rows :: "bool list \<Rightarrow> DataFrame \<Rightarrow> DataFrame" where
  "select_rows keep df = df\<lparr>rows := map snd (filter fst (zip keep (rows df)))\<rparr>"

subsection \<open>run\_vw\_audit\_command\<close>

text \<open>
  \<^verbatim>\<open>check_output(cmd).decode()\<close> belongs to the operating system: it is a parameter that
  gives the decoded standard output of a command or the error raised. \<^verbatim>\<open>pred_file\<close> is
  \<open>None\<close> or a text, and \<^verbatim>\<open>if pred_file:\<close> holds for a text that is not empty. Every
  function returns what it printed and wrote, then its result or the error it raised.
\<close>

definition truthy :: "str option \<Rightarrow> bool" where
  "truthy x = (case x of None \<Rightarrow> False | Some s \<Rightarrow> s \<noteq> [])"

definition default_vw_base_cmd :: str where
  "default_vw_base_cmd = STR8 ''vw -t -l 0.001''"

definition run_vw_audit_command ::
  "(str \<Rightarrow> error + str) \<Rightarrow> str \<Rightarrow> str \<Rightarrow> str option \<Rightarrow> bool \<Rightarrow> str
     \<Rightarrow> event list \<times> (error + str)" where
  "run_vw_audit_command check_output model_file log_file pred_file verbose vw_base_cmd =
     (case (if truthy pred_file
            then (case str_format (STR8 '' -p {pred_file}'')
                         [(STR8 ''pred_file'', the pred_file)] of
                    Inl e \<Rightarrow> Inl e
                  | Inr s \<Rightarrow> Inr (vw_base_cmd @ s))
            else Inr vw_base_cmd) of
        Inl e \<Rightarrow> ([], Inl e)
      | Inr vw_base_cmd1 \<Rightarrow>
          (case str_format (STR8 '' -i {model} --dsjson {test_input} --audit'')
                  [(STR8 ''model'', model_file), (STR8 ''test_input'', log_file)] of
             Inl e \<Rightarrow> ([], Inl e)
           | Inr s \<Rightarrow>
               (let vw_audit_cmd = vw_base_cmd1 @ s;
                    out1 = (if verbose then [PrintCommand vw_audit_cmd] else [])
                in case check_output vw_audit_cmd of
                     Inl e \<Rightarrow> (out1, Inl e)
                   | Inr vw_cmd_output \<Rightarrow>
                       (if verbose then out1 @ [PrintOutput vw_cmd_output] else out1,
                        Inr vw_cmd_output))))"

subsection \<open>parse\_audit\_command\<close>

text \<open>
  \<^verbatim>\<open>coeff_term[i]\<close> raises IndexError when the list has no position \<open>i\<close>. The dictionary
  display reads the positions 0, 1, 2 and 3 in this order.
\<close>

definition item :: "'a list \<Rightarrow> nat \<Rightarrow> error + 'a" where
  "item xs i = (if i < length xs then Inr (xs ! i) else Inl IndexError)"

definition coeff_record :: "str list \<Rightarrow> error + dict" where
  "coeff_record coeff_term =
     (case item coeff_term 0 of Inl e \<Rightarrow> Inl e | Inr v0 \<Rightarrow>
      case item coeff_term 1 of Inl e \<Rightarrow> Inl e | Inr v1 \<Rightarrow>
      case item coeff_term 2 of Inl e \<Rightarrow> Inl e | Inr v2 \<Rightarrow>
      case item coeff_term 3 of Inl e \<Rightarrow> Inl e | Inr v3 \<Rightarrow>
        Inr [(STR8 ''Namespace^Feature'', v0),
             (STR8 ''HashValue'', v1),
             (STR8 ''FeatureValue'', v2),
             (STR8 ''WeightValue'', v3)])"

text \<open>The inner loop, over the tokens of one line.\<close>

fun process_coefficients ::
  "bool \<Rightarrow> str list \<Rightarrow> event list \<Rightarrow> dict list \<Rightarrow> event list \<times> (error + dict list)" where
  "process_coefficients verbose [] out coeff_list = (out, Inr coeff_list)"
| "process_coefficients verbose (coeff # rest) out coeff_list =
     (let coeff_term = str_split COLON coeff;
          out1 = (if verbose then out @ [PrintCoefficients coeff_term] else out)
      in case coeff_record coeff_term of
           Inl e \<Rightarrow> (out1, Inl e)
         | Inr d \<Rightarrow> process_coefficients verbose rest out1 (coeff_list @ [d]))"

text \<open>The outer loop, over the stripped lines.\<close>

fun process_lines ::
  "bool \<Rightarrow> str list \<Rightarrow> int \<Rightarrow> event list \<Rightarrow> dict list
     \<Rightarrow> event list \<times> (error + dict list)" where
  "process_lines verbose [] line_number out coeff_list = (out, Inr coeff_list)"
| "process_lines verbose (line # rest) line_number out coeff_list =
     (let line_number1 = line_number + 1;
          out1 = (if verbose then out @ [PrintLine line_number1 line] else out);
          coefficients = str_split TAB line;
          out2 = (if verbose then out1 @ [PrintNumCoefficients (length coefficients)]
                  else out1)
      in if length coefficients \<le> 1
         then process_lines verbose rest line_number1 out2 coeff_list
         else (case process_coefficients verbose coefficients out2 coeff_list of
                 (out3, Inl e) \<Rightarrow> (out3, Inl e)
               | (out3, Inr coeff_list1) \<Rightarrow>
                   process_lines verbose rest line_number1 out3 coeff_list1))"

definition index_keys :: "str list" where
  "index_keys = [STR8 ''Namespace^Feature'', STR8 ''HashValue'', STR8 ''FeatureValue'']"

text \<open>
  \<^verbatim>\<open>to_csv\<close> writes the file named by \<^verbatim>\<open>audit_output_file\<close>; whether the file can be
  written is a parameter, and a file that cannot raises OSError.
\<close>

definition parse_audit_command ::
  "(str \<Rightarrow> bool) \<Rightarrow> str \<Rightarrow> str \<Rightarrow> bool \<Rightarrow> event list \<times> (error + DataFrame)" where
  "parse_audit_command writable vw_cmd_output audit_output_file verbose =
     (case process_lines verbose (map str_strip (str_splitlines vw_cmd_output)) 0 [] [] of
        (out, Inl e) \<Rightarrow> (out, Inl e)
      | (out, Inr coeff_list) \<Rightarrow>
          (case set_index index_keys (DataFrame_of coeff_list) of
             Inl e \<Rightarrow> (out, Inl e)
           | Inr df \<Rightarrow>
               (let df_coeff =
                      select_rows (map Not (duplicated_first (map fst (rows df)))) df
                in if writable audit_output_file
                   then (out @ [ToCsv audit_output_file df_coeff], Inr df_coeff)
                   else (out, Inl OSError))))"

subsection \<open>pprint\_vw\_audit\<close>

definition pprint_vw_audit ::
  "(str \<Rightarrow> error + str) \<Rightarrow> (str \<Rightarrow> bool) \<Rightarrow> str \<Rightarrow> str \<Rightarrow> str \<Rightarrow> str option \<Rightarrow> bool \<Rightarrow> str
     \<Rightarrow> event list \<times> (error + unit)" where
  "pprint_vw_audit check_output writable model_file log_file audit_output_file pred_file
       verbose vw_base_cmd =
     (case run_vw_audit_command check_output model_file log_file pred_file verbose
             vw_base_cmd of
        (out1, Inl e) \<Rightarrow> (out1, Inl e)
      | (out1, Inr vw_cmd_output) \<Rightarrow>
          (case parse_audit_command writable vw_cmd_output audit_output_file False of
             (out2, Inl e) \<Rightarrow> (out1 @ out2, Inl e)
           | (out2, Inr df) \<Rightarrow> (out1 @ out2, Inr ())))"

subsection \<open>Notions used to state the properties\<close>

text \<open>
  The stripped lines of a text, the tokens of its lines that hold at least two tokens (top
  to bottom, left to right), the record made of the first four parts of a token, the index
  label of a token, and the row that a record becomes in the indexed frame.
\<close>

definition audit_lines :: "str \<Rightarrow> str list" where
  "audit_lines blob = map str_strip (str_splitlines blob)"

definition audit_tokens :: "str \<Rightarrow> str list" where
  "audit_tokens blob =
     concat (map (str_split TAB)
       (filter (\<lambda>line. 2 \<le> length (str_split TAB line)) (audit_lines blob)))"

definition four_fields :: "str list \<Rightarrow> dict" where
  "four_fields parts =
     [(STR8 ''Namespace^Feature'', parts ! 0),
      (STR8 ''HashValue'', parts ! 1),
      (STR8 ''FeatureValue'', parts ! 2),
      (STR8 ''WeightValue'', parts ! 3)]"

definition token_key :: "str \<Rightarrow> label" where
  "token_key tok = MultiIx (take 3 (str_split COLON tok))"

definition table_row :: "dict \<Rightarrow> label \<times> dict" where
  "table_row d =
     (MultiIx (map (cell d) index_keys),
      [(STR8 ''WeightValue'', cell d (STR8 ''WeightValue''))])"

text \<open>
  The elements of a list at the positions where the element did not occur before, in the
  order of the positions.
\<close>

definition first_occurrences :: "'a list \<Rightarrow> 'a list" where
  "first_occurrences ks =
     map (nth ks) (filter (\<lambda>i. ks ! i \<notin> set (take i ks)) [0..<length ks])"

text \<open>The elements of a list whose key is not among those seen so far.\<close>

fun keep_first :: "('a \<Rightarrow> 'k) \<Rightarrow> 'k list \<Rightarrow> 'a list \<Rightarrow> 'a list" where
  "keep_first f seen [] = []"
| "keep_first f seen (x # xs) =
     (if f x \<in> set seen then keep_first f (f x # seen) xs
      else x # keep_first f (f x # seen) xs)"

text \<open>
  An environment in which every file can be written, and one in which a command prints
  its own text.
\<close>

definition every_file_writable :: "str \<Rightarrow> bool" where
  "every_file_writable f = True"

definition echo_command :: "str \<Rightarrow> error + str" where
  "echo_command cmd = Inr cmd"

section \<open>Properties\<close>

subsection \<open>The two loops\<close>

text \<open>
  What the loops return does not depend on \<open>verbose\<close>: IndexError when a token of a line
  with at least two tokens has fewer than four parts, otherwise the records of all tokens
  of these lines, appended in order. What they print is added to \<open>out\<close>.
\<close>

lemma coeff_record_eq:
  "coeff_record p = (if length p < 4 then Inl IndexError else Inr (four_fields p))"
  by (auto simp add: coeff_record_def item_def four_fields_def)

lemma process_coefficients_snd:
  "snd (process_coefficients v toks out cl) =
     (if \<exists>t\<in>set toks. length (str_split COLON t) < 4 then Inl IndexError
      else Inr (cl @ map (\<lambda>t. four_fields (str_split COLON t)) toks))"
  by (induction toks arbitrary: out cl) (simp_all add: Let_def coeff_record_eq)

lemma process_lines_snd:
  "snd (process_lines v ls n out cl) =
     (if \<exists>l\<in>set ls. 2 \<le> length (str_split TAB l) \<and>
           (\<exists>t\<in>set (str_split TAB l). length (str_split COLON t) < 4)
      then Inl IndexError
      else Inr (cl @ map (\<lambda>t. four_fields (str_split COLON t))
             (concat (map (str_split TAB)
                (filter (\<lambda>l. 2 \<le> length (str_split TAB l)) ls)))))"
proof (induction ls arbitrary: n out cl)
  case Nil
  show ?case by simp
next
  case (Cons l ls)
  show ?case
  proof (cases "2 \<le> length (str_split TAB l)")
    case False
    then show ?thesis by (simp add: Let_def Cons.IH)
  next
    case True
    let ?out2 = "if v then (if v then out @ [PrintLine (n + 1) l] else out) @
                   [PrintNumCoefficients (length (str_split TAB l))]
                 else (if v then out @ [PrintLine (n + 1) l] else out)"
    obtain out3 r where pc: "process_coefficients v (str_split TAB l) ?out2 cl = (out3, r)"
      by (cases "process_coefficients v (str_split TAB l) ?out2 cl")
    have r: "r = (if \<exists>t\<in>set (str_split TAB l). length (str_split COLON t) < 4
                  then Inl IndexError
                  else Inr (cl @ map (\<lambda>t. four_fields (str_split COLON t)) (str_split TAB l)))"
      using process_coefficients_snd [of v "str_split TAB l" ?out2 cl] pc by simp
    show ?thesis
    proof (cases "\<exists>t\<in>set (str_split TAB l). length (str_split COLON t) < 4")
      case bad: True
      with True r pc show ?thesis by (auto simp add: Let_def)
    next
      case good: False
      with True r pc show ?thesis by (simp add: Let_def Cons.IH)
    qed
  qed
qed

lemma process_coefficients_quiet:
  "fst (process_coefficients False toks out cl) = out"
  by (induction toks arbitrary: cl) (simp_all add: Let_def split: sum.splits)

lemma process_lines_quiet:
  "fst (process_lines False ls n out cl) = out"
proof (induction ls arbitrary: n cl)
  case Nil
  show ?case by simp
next
  case (Cons l ls)
  show ?case
    using process_coefficients_quiet [of "str_split TAB l" out cl]
    by (auto simp add: Let_def Cons.IH split: prod.splits sum.splits)
qed

lemma process_coefficients_prints:
  "filter (\<lambda>e. \<not> is_print e) (fst (process_coefficients v toks out cl)) =
     filter (\<lambda>e. \<not> is_print e) out"
proof (induction toks arbitrary: out cl)
  case Nil
  show ?case by simp
next
  case (Cons t toks)
  show ?case
  proof (cases "coeff_record (str_split COLON t)")
    case (Inl e)
    then show ?thesis by (simp add: Let_def)
  next
    case (Inr d)
    have "process_coefficients v (t # toks) out cl =
            process_coefficients v toks
              (if v then out @ [PrintCoefficients (str_split COLON t)] else out) (cl @ [d])"
      using Inr by (simp add: Let_def)
    then show ?thesis by (simp add: Cons.IH)
  qed
qed

lemma process_lines_prints:
  "filter (\<lambda>e. \<not> is_print e) (fst (process_lines v ls n out cl)) =
     filter (\<lambda>e. \<not> is_print e) out"
proof (induction ls arbitrary: n out cl)
  case Nil
  show ?case by simp
next
  case (Cons l ls)
  define out2 where "out2 =
    (if v then (if v then out @ [PrintLine (n + 1) l] else out) @
                 [PrintNumCoefficients (length (str_split TAB l))]
     else (if v then out @ [PrintLine (n + 1) l] else out))"
  have a: "filter (\<lambda>e. \<not> is_print e) out2 = filter (\<lambda>e. \<not> is_print e) out"
    by (simp add: out2_def)
  show ?case
  proof (cases "length (str_split TAB l) \<le> 1")
    case True
    then have "process_lines v (l # ls) n out cl = process_lines v ls (n + 1) out2 cl"
      by (simp add: Let_def out2_def)
    then show ?thesis by (simp add: Cons.IH a)
  next
    case False
    obtain out3 r where pc: "process_coefficients v (str_split TAB l) out2 cl = (out3, r)"
      by (cases "process_coefficients v (str_split TAB l) out2 cl")
    have b: "filter (\<lambda>e. \<not> is_print e) out3 = filter (\<lambda>e. \<not> is_print e) out"
      using process_coefficients_prints [of v "str_split TAB l" out2 cl] pc a by simp
    have "process_lines v (l # ls) n out cl =
            (case r of Inl e \<Rightarrow> (out3, Inl e)
                     | Inr cl1 \<Rightarrow> process_lines v ls (n + 1) out3 cl1)"
      using False pc by (simp add: Let_def out2_def)
    then show ?thesis by (cases r) (simp_all add: Cons.IH b)
  qed
qed

subsection \<open>Dropping the rows whose index occurred before\<close>

text \<open>
  Selecting the rows that \<open>duplicated\<close> does not mark keeps the first row of every label:
  the kept labels are distinct, the kept rows of one label are the first row with this
  label, and the kept labels are the first occurrences in order.
\<close>

lemma select_keep_first:
  "map snd (filter fst (zip (map Not (duplicated_from seen (map f xs))) xs)) =
     keep_first f seen xs"
  by (induction xs arbitrary: seen) simp_all

lemma keep_first_keys:
  "distinct (map f (keep_first f seen xs)) \<and> set (map f (keep_first f seen xs)) \<inter> set seen = {}"
proof (induction xs arbitrary: seen)
  case Nil
  show ?case by simp
next
  case (Cons x xs)
  from Cons.IH [of "f x # seen"] show ?case by auto
qed

lemma keep_first_filter:
  "filter (\<lambda>r. f r = k) (keep_first f seen xs) =
     (if k \<in> set seen then []
      else (case find (\<lambda>r. f r = k) xs of None \<Rightarrow> [] | Some r \<Rightarrow> [r]))"
proof (induction xs arbitrary: seen)
  case Nil
  show ?case by simp
next
  case (Cons x xs)
  from Cons.IH [of "f x # seen"] show ?case by auto
qed

lemma filter_upt_Suc:
  "filter P [0..<Suc n] = (if P 0 then [0] else []) @ map Suc (filter (\<lambda>i. P (Suc i)) [0..<n])"
proof -
  have "[0..<Suc n] = 0 # map Suc [0..<n]"
    by (simp add: upt_conv_Cons map_Suc_upt del: upt_Suc)
  then show ?thesis by (simp add: filter_map comp_def del: upt_Suc)
qed

lemma keep_first_order:
  "map f (keep_first f seen xs) =
     map (nth (map f xs))
       (filter (\<lambda>i. map f xs ! i \<notin> set seen \<union> set (take i (map f xs))) [0..<length xs])"
proof (induction xs arbitrary: seen)
  case Nil
  show ?case by simp
next
  case (Cons x xs)
  let ?ks = "map f xs"
  let ?P = "\<lambda>i. (f x # ?ks) ! i \<notin> set seen \<union> set (take i (f x # ?ks))"
  let ?Q = "\<lambda>i. ?ks ! i \<notin> set (f x # seen) \<union> set (take i ?ks)"
  have pq: "(\<lambda>i. ?P (Suc i)) = ?Q"
    by (rule ext) auto
  have tail: "map ((!) (f x # ?ks)) (map Suc (filter ?Q [0..<length xs])) =
                map f (keep_first f (f x # seen) xs)"
    using Cons.IH [of "f x # seen"] by (simp add: comp_def)
  have "map ((!) (map f (x # xs))) (filter ?P [0..<length (x # xs)]) =
          (if f x \<in> set seen then [] else [f x]) @
          map ((!) (f x # ?ks)) (map Suc (filter ?Q [0..<length xs]))"
    using filter_upt_Suc [of ?P "length xs"] pq by simp
  also have "\<dots> = map f (keep_first f seen (x # xs))"
    unfolding tail by simp
  finally show ?case by simp
qed

lemma keep_first_first_occurrences:
  "map f (keep_first f [] xs) = first_occurrences (map f xs)"
  by (simp add: keep_first_order first_occurrences_def)

subsection \<open>The frame of the collected records\<close>

text \<open>
  With no record the frame has no column and \<open>set_index\<close> raises KeyError; otherwise
  the three key columns become the index and WeightValue is the only column left.
\<close>

lemma set_first_seen: "set (first_seen seen xs) = set xs - set seen"
  by (induction xs arbitrary: seen) auto

lemma first_seen_all_seen: "set xs \<subseteq> set seen \<Longrightarrow> first_seen seen xs = []"
  by (induction xs arbitrary: seen) auto

lemma row_of_four_fields:
  "(MultiIx (map (cell (four_fields p)) index_keys),
    filter (\<lambda>(c, v). c \<notin> set index_keys) (four_fields p)) = table_row (four_fields p)"
  by (simp add: four_fields_def index_keys_def table_row_def cell_def STR8_def)

lemma table_row_four_fields:
  "table_row (four_fields p) = (MultiIx [p ! 0, p ! 1, p ! 2], [(STR8 ''WeightValue'', p ! 3)])"
  by (simp add: four_fields_def index_keys_def table_row_def cell_def STR8_def)

lemma columns_of_records:
  "first_seen [] (concat (map (map fst) (map four_fields (p # ps)))) =
     [STR8 ''Namespace^Feature'', STR8 ''HashValue'', STR8 ''FeatureValue'', STR8 ''WeightValue'']"
proof -
  let ?ks = "[STR8 ''Namespace^Feature'', STR8 ''HashValue'', STR8 ''FeatureValue'', STR8 ''WeightValue'']"
  have a: "map fst (four_fields q) = ?ks" for q
    by (simp add: four_fields_def)
  have b: "set (concat (map (map fst) (map four_fields ps))) \<subseteq> set (rev ?ks)"
    by (auto simp add: four_fields_def)
  have c: "first_seen (rev ?ks) (concat (map (map fst) (map four_fields ps))) = []"
    using b by (rule first_seen_all_seen)
  have d: "first_seen [] (?ks @ r) = ?ks @ first_seen (rev ?ks) r" for r
    by (simp add: STR8_def)
  have "concat (map (map fst) (map four_fields (p # ps))) =
          ?ks @ concat (map (map fst) (map four_fields ps))"
    by (simp add: a)
  then show ?thesis using c d by simp
qed

lemma rows_of_records:
  "map (\<lambda>(ix, d). (MultiIx (map (cell d) index_keys),
                    filter (\<lambda>(c, v). c \<notin> set index_keys) d))
     (map (\<lambda>(i, d). (RangeIx i, d)) (enumerate n (map four_fields ps))) =
   map table_row (map four_fields ps)"
  by (induction ps arbitrary: n) (simp_all add: row_of_four_fields)

lemma set_index_records:
  "set_index index_keys (DataFrame_of (map four_fields ps)) =
     (if ps = [] then Inl KeyError
      else Inr \<lparr>index_names = index_keys, columns = [STR8 ''WeightValue''],
                rows = map table_row (map four_fields ps)\<rparr>)"
proof (cases ps)
  case Nil
  then show ?thesis
    by (auto simp add: set_index_def DataFrame_of_def index_keys_def)
next
  case (Cons p ps')
  have cols: "columns (DataFrame_of (map four_fields ps)) =
     [STR8 ''Namespace^Feature'', STR8 ''HashValue'', STR8 ''FeatureValue'', STR8 ''WeightValue'']"
    unfolding Cons DataFrame_of_def using columns_of_records [of p ps'] by simp
  have ok: "\<not> (\<exists>k \<in> set index_keys. k \<notin> set (columns (DataFrame_of (map four_fields ps))))"
    unfolding cols by (simp add: index_keys_def)
  have f: "filter (\<lambda>c. c \<notin> set index_keys) (columns (DataFrame_of (map four_fields ps))) =
             [STR8 ''WeightValue'']"
    unfolding cols by (simp add: index_keys_def STR8_def)
  have r: "rows (DataFrame_of (map four_fields ps)) =
             map (\<lambda>(i, d). (RangeIx i, d)) (enumerate 0 (map four_fields ps))"
    by (simp add: DataFrame_of_def)
  have rw: "map (\<lambda>(ix, d). (MultiIx (map (cell d) index_keys),
                          filter (\<lambda>(c, v). c \<notin> set index_keys) d))
              (rows (DataFrame_of (map four_fields ps))) =
            map table_row (map four_fields ps)"
    unfolding r by (rule rows_of_records)
  have ne: "ps \<noteq> []"
    using Cons by simp
  show ?thesis
    unfolding set_index_def using ok f rw ne by simp
qed

subsection \<open>What parse\_audit\_command returns\<close>

text \<open>
  The result in every case: IndexError for a short token, KeyError when no record was
  collected, OSError when the file cannot be written, and otherwise the frame whose rows
  are the first rows of every label.
\<close>

lemma collected_records:
  "snd (process_lines v (map str_strip (str_splitlines blob)) n out []) =
     (if \<exists>l\<in>set (audit_lines blob). 2 \<le> length (str_split TAB l) \<and>
           (\<exists>t\<in>set (str_split TAB l). length (str_split COLON t) < 4)
      then Inl IndexError
      else Inr (map (\<lambda>t. four_fields (str_split COLON t)) (audit_tokens blob)))"
  by (simp add: process_lines_snd audit_lines_def audit_tokens_def)

lemma parse_audit_command_snd:
  "snd (parse_audit_command w blob file v) =
     (if \<exists>l\<in>set (audit_lines blob). 2 \<le> length (str_split TAB l) \<and>
           (\<exists>t\<in>set (str_split TAB l). length (str_split COLON t) < 4)
      then Inl IndexError
      else if audit_tokens blob = [] then Inl KeyError
      else if \<not> w file then Inl OSError
      else Inr \<lparr>index_names = index_keys, columns = [STR8 ''WeightValue''],
                rows = keep_first fst []
                  (map (\<lambda>t. table_row (four_fields (str_split COLON t)))
                     (audit_tokens blob))\<rparr>)"
proof -
  obtain out r where pl:
    "process_lines v (map str_strip (str_splitlines blob)) 0 [] [] = (out, r)"
    by (cases "process_lines v (map str_strip (str_splitlines blob)) 0 [] []")
  have r: "r = (if \<exists>l\<in>set (audit_lines blob). 2 \<le> length (str_split TAB l) \<and>
           (\<exists>t\<in>set (str_split TAB l). length (str_split COLON t) < 4)
      then Inl IndexError
      else Inr (map (\<lambda>t. four_fields (str_split COLON t)) (audit_tokens blob)))"
    using collected_records [of v blob 0 "[]"] pl by simp
  show ?thesis
  proof (cases "\<exists>l\<in>set (audit_lines blob). 2 \<le> length (str_split TAB l) \<and>
           (\<exists>t\<in>set (str_split TAB l). length (str_split COLON t) < 4)")
    case True
    with r pl show ?thesis by (simp add: parse_audit_command_def)
  next
    case False
    let ?ps = "map (str_split COLON) (audit_tokens blob)"
    have cl: "r = Inr (map four_fields ?ps)"
      using r False by (simp add: comp_def)
    have si: "set_index index_keys (DataFrame_of (map four_fields ?ps)) =
      (if ?ps = [] then Inl KeyError
       else Inr \<lparr>index_names = index_keys, columns = [STR8 ''WeightValue''],
                rows = map table_row (map four_fields ?ps)\<rparr>)"
      by (rule set_index_records)
    show ?thesis
    proof (cases "audit_tokens blob = []")
      case True
      with False cl pl si show ?thesis by (simp add: parse_audit_command_def)
    next
      case ne: False
      define rs where "rs = map table_row (map four_fields ?ps)"
      define cl0 where "cl0 = map four_fields ?ps"
      have si': "set_index index_keys (DataFrame_of cl0) =
        Inr \<lparr>index_names = index_keys, columns = [STR8 ''WeightValue''], rows = rs\<rparr>"
        using si ne by (simp add: rs_def cl0_def)
      have pl': "process_lines v (map str_strip (str_splitlines blob)) 0 [] [] = (out, Inr cl0)"
        using pl cl by (simp add: cl0_def)
      have "snd (parse_audit_command w blob file v) =
              (if \<not> w file then Inl OSError
               else Inr \<lparr>index_names = index_keys, columns = [STR8 ''WeightValue''],
                         rows = keep_first fst [] rs\<rparr>)"
        unfolding parse_audit_command_def pl'
        by (simp add: si' Let_def select_rows_def duplicated_first_def select_keep_first)
      moreover have "rs = map (\<lambda>t. table_row (four_fields (str_split COLON t)))
                            (audit_tokens blob)"
        by (simp add: rs_def comp_def)
      ultimately show ?thesis using False ne by simp
    qed
  qed
qed

text \<open>
  When a table is returned, every token of the scanned lines has at least four parts, the
  loops collected the records of all these tokens, and the rows are the first rows of
  every label.
\<close>

lemma parse_returns:
  assumes "snd (parse_audit_command w blob file v) = Inr df"
  shows "(\<forall>t \<in> set (audit_tokens blob). 4 \<le> length (str_split COLON t)) \<and>
         snd (process_lines v (map str_strip (str_splitlines blob)) 0 [] []) =
           Inr (map (\<lambda>t. four_fields (str_split COLON t)) (audit_tokens blob)) \<and>
         rows df = keep_first fst []
           (map table_row (map (\<lambda>t. four_fields (str_split COLON t)) (audit_tokens blob)))"
proof -
  let ?bad = "\<exists>l\<in>set (audit_lines blob). 2 \<le> length (str_split TAB l) \<and>
           (\<exists>t\<in>set (str_split TAB l). length (str_split COLON t) < 4)"
  have nb: "\<not> ?bad"
    using assms parse_audit_command_snd [of w blob "file" v] by (auto split: if_splits)
  have a: "\<forall>t \<in> set (audit_tokens blob). 4 \<le> length (str_split COLON t)"
    using nb by (fastforce simp add: audit_tokens_def)
  have b: "snd (process_lines v (map str_strip (str_splitlines blob)) 0 [] []) =
           Inr (map (\<lambda>t. four_fields (str_split COLON t)) (audit_tokens blob))"
    using nb collected_records [of v blob 0 "[]"] by simp
  have c: "rows df = keep_first fst []
           (map table_row (map (\<lambda>t. four_fields (str_split COLON t)) (audit_tokens blob)))"
    using assms nb parse_audit_command_snd [of w blob "file" v]
    by (auto simp add: comp_def split: if_splits)
  from a b c show ?thesis by simp
qed

lemma find_mapped:
  "find P (map g xs) = map_option g (find (\<lambda>x. P (g x)) xs)"
  by (induction xs) simp_all

lemma take3_parts: "4 \<le> length p \<Longrightarrow> take 3 p = [p ! 0, p ! 1, p ! 2]"
proof -
  assume "4 \<le> length p"
  then obtain a b c r where "p = a # b # c # r"
    by (cases p; cases "tl p"; cases "tl (tl p)") auto
  then show ?thesis by (simp add: numeral_3_eq_3)
qed

subsection \<open>The command line and the printed events\<close>

text \<open>
  The two templates with their fields filled in; a parse that is not verbose prints nothing,
  a verbose one adds only prints, and run\_vw\_audit\_command does nothing but print.
\<close>

lemma format_pred_file:
  "str_format (STR8 '' -p {pred_file}'') [(STR8 ''pred_file'', p)] = Inr (STR8 '' -p '' @ p)"
  by (simp add: str_format_def STR8_def)

lemma format_model_input:
  "str_format (STR8 '' -i {model} --dsjson {test_input} --audit'')
     [(STR8 ''model'', m), (STR8 ''test_input'', l)] =
   Inr (STR8 '' -i '' @ m @ STR8 '' --dsjson '' @ l @ STR8 '' --audit'')"
  by (simp add: str_format_def STR8_def)

lemma parse_quiet_events:
  "fst (parse_audit_command w blob path False) =
     (case snd (parse_audit_command w blob path False) of
        Inl e \<Rightarrow> [] | Inr df \<Rightarrow> [ToCsv path df])"
proof -
  obtain out r where pl:
    "process_lines False (map str_strip (str_splitlines blob)) 0 [] [] = (out, r)"
    by (cases "process_lines False (map str_strip (str_splitlines blob)) 0 [] []")
  have "out = []"
    using process_lines_quiet [of "map str_strip (str_splitlines blob)" 0 "[]" "[]"] pl by simp
  with pl show ?thesis
    by (simp add: parse_audit_command_def Let_def split: sum.splits)
qed

lemma parse_verbose_events:
  "filter (\<lambda>e. \<not> is_print e) (fst (parse_audit_command w blob path True)) =
     fst (parse_audit_command w blob path False)"
proof -
  let ?ls = "map str_strip (str_splitlines blob)"
  obtain outT rT where plT: "process_lines True ?ls 0 [] [] = (outT, rT)"
    by (cases "process_lines True ?ls 0 [] []")
  obtain outF rF where plF: "process_lines False ?ls 0 [] [] = (outF, rF)"
    by (cases "process_lines False ?ls 0 [] []")
  have r: "rT = rF"
    using process_lines_snd [of True ?ls 0 "[]" "[]"] process_lines_snd [of False ?ls 0 "[]" "[]"]
      plT plF by simp
  have oF: "outF = []"
    using process_lines_quiet [of ?ls 0 "[]" "[]"] plF by simp
  have oT: "filter (\<lambda>e. \<not> is_print e) outT = []"
    using process_lines_prints [of True ?ls 0 "[]" "[]"] plT by simp
  show ?thesis
    unfolding parse_audit_command_def plT plF r oF
    by (simp add: oT Let_def split: sum.splits)
qed

lemma run_events_print:
  "filter is_print (fst (run_vw_audit_command co m l p v b)) =
     fst (run_vw_audit_command co m l p v b)"
  by (simp add: run_vw_audit_command_def Let_def split: sum.splits)

section \<open>The claims\<close>

lemmas text_defs = STR8_def TAB_def COLON_def str_splitlines_def is_linebreak_def
  str_strip_def is_space_def audit_lines_def audit_tokens_def

lemmas loop_defs = coeff_record_def item_def Let_def

text \<open>
  C1. The claim: a text that is empty, or that has no line with at least two tab-separated
  tokens, gives a table with no row and no error. The program raises KeyError instead:
  no record is collected, the frame has no column, and \<open>set_index\<close> finds none of its
  keys. Evaluated at the empty text and at a text of one line without a tab.
\<close>

theorem c1_empty_blob_raises_KeyError:
  "parse_audit_command every_file_writable [] (STR8 ''audit.tsv'') False = ([], Inl KeyError)
   \<and> snd (parse_audit_command every_file_writable (STR8 ''average loss = 0.25'')
          (STR8 ''audit.tsv'') False) = Inl KeyError"
proof -
  have a: "parse_audit_command every_file_writable [] (STR8 ''audit.tsv'') False =
             ([], Inl KeyError)"
    by (simp add: parse_audit_command_def str_splitlines_def set_index_def DataFrame_of_def
        index_keys_def)
  have b: "audit_tokens (STR8 ''average loss = 0.25'') = []"
    by (simp add: text_defs)
  have c: "audit_lines (STR8 ''average loss = 0.25'') = [STR8 ''average loss = 0.25'']"
    by (simp add: text_defs)
  have d: "str_split TAB (STR8 ''average loss = 0.25'') = [STR8 ''average loss = 0.25'']"
    by (simp add: text_defs)
  show ?thesis
    using a by (simp add: parse_audit_command_snd b c d)
qed

text \<open>
  C2. For every text, parse\_audit\_command raises IndexError if and only if some stripped
  line with at least two tab-separated tokens has a token with fewer than four
  colon-separated parts; building the record reads the positions 0 to 3 of the parts and
  raises IndexError exactly when there are fewer than four.
\<close>

theorem c2_IndexError_iff:
  "(snd (parse_audit_command writable blob file verbose) = Inl IndexError \<longleftrightarrow>
     (\<exists>line \<in> set (map str_strip (str_splitlines blob)).
        2 \<le> length (str_split TAB line) \<and>
        (\<exists>tok \<in> set (str_split TAB line). length (str_split COLON tok) < 4)))
   \<and> (coeff_record parts = Inl IndexError \<longleftrightarrow> length parts < 4)"
  by (simp add: parse_audit_command_snd coeff_record_eq audit_lines_def)

theorem c2_IndexError_iff_witness:
  "snd (parse_audit_command every_file_writable
         (STR8 ''x:1:1:0.5'' @ [TAB] @ STR8 ''y:2:0.25'') (STR8 ''audit.tsv'') True) =
     Inl IndexError"
  by (rule c2_IndexError_iff [THEN conjunct1, THEN iffD2]) (simp add: text_defs)

text \<open>
  C3. When several collected records have the same key (Namespace\<^verbatim>\<open>^\<close>Feature, HashValue,
  FeatureValue), the returned table has exactly one row with this key, and it carries the
  weight of the first of these records in the order of collection; the later ones are
  dropped. For the tokens \<^verbatim>\<open>a:1:1:0.1\<close> then \<^verbatim>\<open>a:1:1:0.9\<close> the weight kept is \<^verbatim>\<open>0.1\<close>.
\<close>

theorem c3_first_weight_kept:
  assumes "snd (process_lines verbose (map str_strip (str_splitlines blob)) 0 [] []) =
             Inr coeff_list"
    and "snd (parse_audit_command writable blob file verbose) = Inr df"
    and "find (\<lambda>d. map (cell d) index_keys = key) coeff_list = Some d"
  shows "filter (\<lambda>row. fst row = MultiIx key) (rows df) =
           [(MultiIx key, [(STR8 ''WeightValue'', cell d (STR8 ''WeightValue''))])]"
proof -
  from parse_returns [OF assms(2)] assms(1)
  have rows: "rows df = keep_first fst [] (map table_row coeff_list)"
    by simp
  have f: "find (\<lambda>r. fst r = MultiIx key) (map table_row coeff_list) = Some (table_row d)"
    using assms(3) by (simp add: find_mapped table_row_def)
  have k: "map (cell d) index_keys = key"
    using assms(3) by (auto simp add: find_Some_iff)
  have "filter (\<lambda>row. fst row = MultiIx key) (rows df) = [table_row d]"
    unfolding rows by (simp add: keep_first_filter f)
  then show ?thesis
    using k by (simp add: table_row_def)
qed

theorem c3_first_weight_kept_witness:
  "snd (process_lines False
          (map str_strip (str_splitlines (STR8 ''a:1:1:0.1'' @ [TAB] @ STR8 ''a:1:1:0.9'')))
          0 [] []) =
     Inr [four_fields [STR8 ''a'', STR8 ''1'', STR8 ''1'', STR8 ''0.1''],
          four_fields [STR8 ''a'', STR8 ''1'', STR8 ''1'', STR8 ''0.9'']]
   \<and> (\<exists>df. snd (parse_audit_command every_file_writable
                   (STR8 ''a:1:1:0.1'' @ [TAB] @ STR8 ''a:1:1:0.9'') (STR8 ''audit.tsv'')
                   False) = Inr df
          \<and> rows df = [(MultiIx [STR8 ''a'', STR8 ''1'', STR8 ''1''],
                         [(STR8 ''WeightValue'', STR8 ''0.1'')])]
          \<and> filter (\<lambda>row. fst row = MultiIx [STR8 ''a'', STR8 ''1'', STR8 ''1'']) (rows df) =
              [(MultiIx [STR8 ''a'', STR8 ''1'', STR8 ''1''],
                [(STR8 ''WeightValue'', STR8 ''0.1'')])])"
proof -
  let ?B = "STR8 ''a:1:1:0.1'' @ [TAB] @ STR8 ''a:1:1:0.9''"
  let ?d1 = "four_fields [STR8 ''a'', STR8 ''1'', STR8 ''1'', STR8 ''0.1'']"
  let ?d2 = "four_fields [STR8 ''a'', STR8 ''1'', STR8 ''1'', STR8 ''0.9'']"
  let ?df = "\<lparr>index_names = index_keys, columns = [STR8 ''WeightValue''],
              rows = [(MultiIx [STR8 ''a'', STR8 ''1'', STR8 ''1''],
                       [(STR8 ''WeightValue'', STR8 ''0.1'')])]\<rparr>"
  have h1: "snd (process_lines False (map str_strip (str_splitlines ?B)) 0 [] []) =
              Inr [?d1, ?d2]"
    by (simp add: text_defs loop_defs four_fields_def)
  have h2: "snd (parse_audit_command every_file_writable ?B (STR8 ''audit.tsv'') False) =
              Inr ?df"
    by (simp add: parse_audit_command_snd text_defs table_row_four_fields
        every_file_writable_def)
  have h3: "find (\<lambda>d. map (cell d) index_keys = [STR8 ''a'', STR8 ''1'', STR8 ''1''])
              [?d1, ?d2] = Some ?d1"
    by (simp add: four_fields_def cell_def index_keys_def STR8_def)
  have w: "cell ?d1 (STR8 ''WeightValue'') = STR8 ''0.1''"
    by (simp add: four_fields_def cell_def STR8_def)
  from c3_first_weight_kept [OF h1 h2 h3] w h1 h2 show ?thesis
    by simp
qed

text \<open>
  C4. In every table that parse\_audit\_command returns, no two rows have the same key
  (Namespace\<^verbatim>\<open>^\<close>Feature, HashValue, FeatureValue).
\<close>

theorem c4_unique_keys:
  "snd (parse_audit_command writable blob file verbose) = Inr df \<Longrightarrow>
     distinct (map fst (rows df))"
  using parse_returns [of writable blob "file" verbose df] keep_first_keys [of fst "[]"]
  by simp

theorem c4_unique_keys_witness:
  "\<exists>df. snd (parse_audit_command every_file_writable
              (STR8 ''a:1:1:0.1'' @ [TAB] @ STR8 ''b:1:1:1'' @ [0x0A] @
               STR8 ''a:1:1:0.9'' @ [TAB] @ STR8 ''c:1:1:1'')
              (STR8 ''audit.tsv'') False) = Inr df
     \<and> length (rows df) = 3 \<and> distinct (map fst (rows df))"
proof -
  let ?B = "STR8 ''a:1:1:0.1'' @ [TAB] @ STR8 ''b:1:1:1'' @ [0x0A] @
            STR8 ''a:1:1:0.9'' @ [TAB] @ STR8 ''c:1:1:1''"
  let ?df = "\<lparr>index_names = index_keys, columns = [STR8 ''WeightValue''],
              rows = [(MultiIx [STR8 ''a'', STR8 ''1'', STR8 ''1''],
                       [(STR8 ''WeightValue'', STR8 ''0.1'')]),
                      (MultiIx [STR8 ''b'', STR8 ''1'', STR8 ''1''],
                       [(STR8 ''WeightValue'', STR8 ''1'')]),
                      (MultiIx [STR8 ''c'', STR8 ''1'', STR8 ''1''],
                       [(STR8 ''WeightValue'', STR8 ''1'')])]\<rparr>"
  have h: "snd (parse_audit_command every_file_writable ?B (STR8 ''audit.tsv'') False) =
             Inr ?df"
    by (simp add: parse_audit_command_snd text_defs table_row_four_fields
        every_file_writable_def)
  from c4_unique_keys [OF h] h show ?thesis
    by (intro exI [of _ ?df]) simp
qed

text \<open>
  C5. In every table that parse\_audit\_command returns, the keys of the rows, in order,
  are the keys of the tokens at their first occurrences, the tokens being scanned line by
  line from the top and from left to right within a line.
\<close>

theorem c5_row_order:
  "snd (parse_audit_command writable blob file verbose) = Inr df \<Longrightarrow>
     map fst (rows df) = first_occurrences (map token_key (audit_tokens blob))"
proof -
  assume ret: "snd (parse_audit_command writable blob file verbose) = Inr df"
  note pr = parse_returns [OF ret]
  have keys: "map fst (map table_row (map (\<lambda>t. four_fields (str_split COLON t))
                 (audit_tokens blob))) = map token_key (audit_tokens blob)"
    using pr by (simp add: table_row_four_fields token_key_def take3_parts)
  have "map fst (rows df) = first_occurrences (map fst (map table_row
          (map (\<lambda>t. four_fields (str_split COLON t)) (audit_tokens blob))))"
    using pr by (simp only: keep_first_first_occurrences)
  then show ?thesis
    by (simp only: keys)
qed

theorem c5_row_order_witness:
  "\<exists>df. snd (parse_audit_command every_file_writable
              (STR8 ''summary'' @ [0x0A] @
               STR8 ''f:7:1:0.5'' @ [TAB] @ STR8 ''e:3:1:2'' @ [0x0D, 0x0A] @
               STR8 ''e:3:1:4'' @ [TAB] @ STR8 ''d:9:1:8'')
              (STR8 ''audit.tsv'') True) = Inr df
     \<and> map fst (rows df) =
         [MultiIx [STR8 ''f'', STR8 ''7'', STR8 ''1''],
          MultiIx [STR8 ''e'', STR8 ''3'', STR8 ''1''],
          MultiIx [STR8 ''d'', STR8 ''9'', STR8 ''1'']]
     \<and> first_occurrences (map token_key (audit_tokens
           (STR8 ''summary'' @ [0x0A] @
            STR8 ''f:7:1:0.5'' @ [TAB] @ STR8 ''e:3:1:2'' @ [0x0D, 0x0A] @
            STR8 ''e:3:1:4'' @ [TAB] @ STR8 ''d:9:1:8''))) =
         [MultiIx [STR8 ''f'', STR8 ''7'', STR8 ''1''],
          MultiIx [STR8 ''e'', STR8 ''3'', STR8 ''1''],
          MultiIx [STR8 ''d'', STR8 ''9'', STR8 ''1'']]"
proof -
  let ?B = "STR8 ''summary'' @ [0x0A] @
            STR8 ''f:7:1:0.5'' @ [TAB] @ STR8 ''e:3:1:2'' @ [0x0D, 0x0A] @
            STR8 ''e:3:1:4'' @ [TAB] @ STR8 ''d:9:1:8''"
  let ?df = "\<lparr>index_names = index_keys, columns = [STR8 ''WeightValue''],
              rows = [(MultiIx [STR8 ''f'', STR8 ''7'', STR8 ''1''],
                       [(STR8 ''WeightValue'', STR8 ''0.5'')]),
                      (MultiIx [STR8 ''e'', STR8 ''3'', STR8 ''1''],
                       [(STR8 ''WeightValue'', STR8 ''2'')]),
                      (MultiIx [STR8 ''d'', STR8 ''9'', STR8 ''1''],
                       [(STR8 ''WeightValue'', STR8 ''8'')])]\<rparr>"
  have h: "snd (parse_audit_command every_file_writable ?B (STR8 ''audit.tsv'') True) =
             Inr ?df"
    by (simp add: parse_audit_command_snd text_defs table_row_four_fields
        every_file_writable_def)
  from c5_row_order [OF h] h show ?thesis
    by (intro exI [of _ ?df]) simp
qed

text \<open>
  C6. The claim: the text of the single line \<^verbatim>\<open>ns^feat:abcd1234:1.0:0.532\<close> gives a table
  of one row. The line has one tab-separated token, so the loop skips it: no record is
  collected and no table is returned.
\<close>

theorem c6_single_token_line_counterexample:
  "str_split TAB (STR8 ''ns^feat:abcd1234:1.0:0.532'') = [STR8 ''ns^feat:abcd1234:1.0:0.532'']
   \<and> snd (process_lines False
            (map str_strip (str_splitlines (STR8 ''ns^feat:abcd1234:1.0:0.532''))) 0 [] []) =
       Inr []
   \<and> snd (parse_audit_command every_file_writable (STR8 ''ns^feat:abcd1234:1.0:0.532'')
            (STR8 ''audit.tsv'') False) = Inl KeyError"
proof -
  have a: "str_split TAB (STR8 ''ns^feat:abcd1234:1.0:0.532'') =
             [STR8 ''ns^feat:abcd1234:1.0:0.532'']"
    by (simp add: text_defs)
  have b: "audit_lines (STR8 ''ns^feat:abcd1234:1.0:0.532'') =
             [STR8 ''ns^feat:abcd1234:1.0:0.532'']"
    by (simp add: text_defs)
  have c: "audit_tokens (STR8 ''ns^feat:abcd1234:1.0:0.532'') = []"
    by (simp add: audit_tokens_def b a)
  have d: "snd (process_lines False
            (map str_strip (str_splitlines (STR8 ''ns^feat:abcd1234:1.0:0.532''))) 0 [] []) =
       Inr []"
    by (simp add: collected_records b c a)
  show ?thesis
    by (simp add: a d parse_audit_command_snd b c)
qed

text \<open>
  C6, as the program has it: parsing the text of the single line
  \<^verbatim>\<open>ns^feat:abcd1234:1.0:0.532\<close> collects no record, since the line has one tab-separated
  token and is skipped; wherever this line stands among the lines, the loop goes on as if
  it were not there. The line that holds this token twice, separated by a tab, gives a
  table with exactly one row, of Namespace\<^verbatim>\<open>^\<close>Feature \<^verbatim>\<open>ns^feat\<close>, HashValue
  \<^verbatim>\<open>abcd1234\<close>, FeatureValue \<^verbatim>\<open>1.0\<close> and WeightValue \<^verbatim>\<open>0.532\<close>.
\<close>

theorem c6_token_on_two_token_line:
  "snd (process_lines verbose [STR8 ''ns^feat:abcd1234:1.0:0.532''] 0 [] []) = Inr []
   \<and> snd (process_lines verbose
            (map str_strip (str_splitlines (STR8 ''ns^feat:abcd1234:1.0:0.532''))) 0 [] []) =
       Inr []
   \<and> snd (process_lines verbose (STR8 ''ns^feat:abcd1234:1.0:0.532'' # rest) n out
            coeff_list) =
       snd (process_lines verbose rest n' out' coeff_list)
   \<and> snd (parse_audit_command every_file_writable
            (STR8 ''ns^feat:abcd1234:1.0:0.532'' @ [TAB] @ STR8 ''ns^feat:abcd1234:1.0:0.532'')
            file verbose) =
       Inr \<lparr>index_names = index_keys, columns = [STR8 ''WeightValue''],
              rows = [(MultiIx [STR8 ''ns^feat'', STR8 ''abcd1234'', STR8 ''1.0''],
                       [(STR8 ''WeightValue'', STR8 ''0.532'')])]\<rparr>"
proof -
  have a: "str_split TAB (STR8 ''ns^feat:abcd1234:1.0:0.532'') =
             [STR8 ''ns^feat:abcd1234:1.0:0.532'']"
    by (simp add: text_defs)
  have l: "map str_strip (str_splitlines (STR8 ''ns^feat:abcd1234:1.0:0.532'')) =
             [STR8 ''ns^feat:abcd1234:1.0:0.532'']"
    by (simp add: text_defs)
  have b: "snd (process_lines verbose [STR8 ''ns^feat:abcd1234:1.0:0.532''] 0 [] []) = Inr []"
    by (simp add: process_lines_snd a)
  have b': "snd (process_lines verbose
            (map str_strip (str_splitlines (STR8 ''ns^feat:abcd1234:1.0:0.532''))) 0 [] []) =
       Inr []"
    unfolding l by (rule b)
  have s: "snd (process_lines verbose (STR8 ''ns^feat:abcd1234:1.0:0.532'' # rest) n out
            coeff_list) =
       snd (process_lines verbose rest n' out' coeff_list)"
    unfolding process_lines_snd by (simp add: a)
  have c: "snd (parse_audit_command every_file_writable
            (STR8 ''ns^feat:abcd1234:1.0:0.532'' @ [TAB] @ STR8 ''ns^feat:abcd1234:1.0:0.532'')
            file verbose) =
       Inr \<lparr>index_names = index_keys, columns = [STR8 ''WeightValue''],
              rows = [(MultiIx [STR8 ''ns^feat'', STR8 ''abcd1234'', STR8 ''1.0''],
                       [(STR8 ''WeightValue'', STR8 ''0.532'')])]\<rparr>"
    by (simp add: parse_audit_command_snd text_defs table_row_four_fields
        every_file_writable_def)
  from b b' s c show ?thesis by (intro conjI)
qed

text \<open>
  C7. The claim: a token with only two colon-separated parts, on a line with at least two
  tokens, does not crash the parser. At the line \<^verbatim>\<open>a:b<TAB>c:d:e:f\<close> the parser raises
  IndexError.
\<close>

theorem c7_two_part_token_counterexample:
  "str_split TAB (STR8 ''a:b'' @ [TAB] @ STR8 ''c:d:e:f'') = [STR8 ''a:b'', STR8 ''c:d:e:f'']
   \<and> str_split COLON (STR8 ''a:b'') = [STR8 ''a'', STR8 ''b'']
   \<and> snd (parse_audit_command every_file_writable (STR8 ''a:b'' @ [TAB] @ STR8 ''c:d:e:f'')
            (STR8 ''audit.tsv'') False) = Inl IndexError"
  by (simp add: parse_audit_command_snd text_defs)

text \<open>
  C7, as the program has it: for every text in which a stripped line with at least two
  tab-separated tokens has a token with exactly two colon-separated parts,
  parse\_audit\_command raises IndexError; it returns no table, so the token is in none.
\<close>

theorem c7_two_part_token_raises:
  assumes "line \<in> set (map str_strip (str_splitlines blob))"
    and "2 \<le> length (str_split TAB line)"
    and "tok \<in> set (str_split TAB line)"
    and "length (str_split COLON tok) = 2"
  shows "snd (parse_audit_command writable blob file verbose) = Inl IndexError"
proof -
  have "\<exists>l\<in>set (audit_lines blob). 2 \<le> length (str_split TAB l) \<and>
           (\<exists>t\<in>set (str_split TAB l). length (str_split COLON t) < 4)"
    using assms unfolding audit_lines_def by (intro bexI [of _ line] conjI bexI [of _ tok]) simp_all
  then show ?thesis
    by (simp add: parse_audit_command_snd)
qed

theorem c7_two_part_token_raises_witness:
  "snd (parse_audit_command every_file_writable
         (STR8 ''p:1:1:0.5'' @ [TAB] @ STR8 ''q:1:1:2'' @ [0x0A] @
          STR8 ''r:1:1:3'' @ [TAB] @ STR8 ''s:4'')
         (STR8 ''audit.tsv'') False) = Inl IndexError"
proof -
  let ?B = "STR8 ''p:1:1:0.5'' @ [TAB] @ STR8 ''q:1:1:2'' @ [0x0A] @
            STR8 ''r:1:1:3'' @ [TAB] @ STR8 ''s:4''"
  let ?line = "STR8 ''r:1:1:3'' @ [TAB] @ STR8 ''s:4''"
  have h1: "?line \<in> set (map str_strip (str_splitlines ?B))"
    by (simp add: text_defs)
  have sp: "str_split TAB ?line = [STR8 ''r:1:1:3'', STR8 ''s:4'']"
    by (simp add: text_defs)
  have h2: "2 \<le> length (str_split TAB ?line)"
    unfolding sp by simp
  have h3: "STR8 ''s:4'' \<in> set (str_split TAB ?line)"
    unfolding sp by simp
  have h4: "length (str_split COLON (STR8 ''s:4'')) = 2"
    by (simp add: text_defs)
  show ?thesis
    by (rule c7_two_part_token_raises [OF h1 h2 h3 h4])
qed

text \<open>
  C8. For every model file, log file, base command and optional prediction file,
  run\_vw\_audit\_command runs exactly the command base command, then
  \<^verbatim>\<open> -p <pred_file>\<close> when a prediction file is given, then
  \<^verbatim>\<open> -i <model> --dsjson <log> --audit\<close>, and returns what \<open>check_output\<close> gives for
  this command: its captured standard output, or the error it raised. No prediction file
  is \<open>None\<close> or the empty text.
\<close>

theorem c8_command_run:
  "snd (run_vw_audit_command check_output model_file log_file None verbose vw_base_cmd) =
     check_output (vw_base_cmd @ STR8 '' -i '' @ model_file @ STR8 '' --dsjson '' @ log_file @
                   STR8 '' --audit'')
   \<and> snd (run_vw_audit_command check_output model_file log_file (Some (c # cs)) verbose
            vw_base_cmd) =
     check_output (vw_base_cmd @ STR8 '' -p '' @ (c # cs) @ STR8 '' -i '' @ model_file @
                   STR8 '' --dsjson '' @ log_file @ STR8 '' --audit'')
   \<and> snd (run_vw_audit_command check_output model_file log_file (Some []) verbose
            vw_base_cmd) =
     check_output (vw_base_cmd @ STR8 '' -i '' @ model_file @ STR8 '' --dsjson '' @ log_file @
                   STR8 '' --audit'')"
  by (simp add: run_vw_audit_command_def truthy_def format_pred_file format_model_input
      Let_def split: sum.splits)

theorem c8_command_run_witness:
  "snd (run_vw_audit_command echo_command (STR8 ''model.vw'') (STR8 ''log.json'')
          (Some (STR8 ''pred.txt'')) True default_vw_base_cmd) =
     Inr (STR8 ''vw -t -l 0.001 -p pred.txt -i model.vw --dsjson log.json --audit'')"
proof -
  have e: "STR8 ''pred.txt'' = 112 # STR8 ''red.txt''"
    by (simp add: STR8_def)
  have "snd (run_vw_audit_command echo_command (STR8 ''model.vw'') (STR8 ''log.json'')
          (Some (112 # STR8 ''red.txt'')) True default_vw_base_cmd) =
        echo_command (default_vw_base_cmd @ STR8 '' -p '' @ (112 # STR8 ''red.txt'') @
          STR8 '' -i '' @ STR8 ''model.vw'' @ STR8 '' --dsjson '' @ STR8 ''log.json'' @
          STR8 '' --audit'')"
    by (rule c8_command_run [THEN conjunct2, THEN conjunct1])
  then show ?thesis
    unfolding e by (simp add: echo_command_def default_vw_base_cmd_def STR8_def)
qed

text \<open>
  C9. For every text, parse\_audit\_command returns the same with \<open>verbose\<close> True and
  False, and the verbose run differs only by prints. pprint\_vw\_audit calls the parser
  with \<open>verbose\<close> False whatever its own \<open>verbose\<close> is: all that it prints is printed by
  run\_vw\_audit\_command.
\<close>

theorem c9_verbose_only_prints:
  "snd (parse_audit_command writable blob path True) =
     snd (parse_audit_command writable blob path False)
   \<and> filter (\<lambda>e. \<not> is_print e) (fst (parse_audit_command writable blob path True)) =
       fst (parse_audit_command writable blob path False)
   \<and> pprint_vw_audit check_output writable model_file log_file path pred_file verbose
         vw_base_cmd =
       (case run_vw_audit_command check_output model_file log_file pred_file verbose
               vw_base_cmd of
          (out1, Inl e) \<Rightarrow> (out1, Inl e)
        | (out1, Inr vw_cmd_output) \<Rightarrow>
            (out1 @ fst (parse_audit_command writable vw_cmd_output path False),
             map_sum id (\<lambda>df. ()) (snd (parse_audit_command writable vw_cmd_output path False))))
   \<and> filter is_print
         (fst (pprint_vw_audit check_output writable model_file log_file path pred_file
                 verbose vw_base_cmd)) =
       fst (run_vw_audit_command check_output model_file log_file pred_file verbose
              vw_base_cmd)"
proof -
  have a: "snd (parse_audit_command writable blob path True) =
             snd (parse_audit_command writable blob path False)"
    by (simp only: parse_audit_command_snd)
  note b = parse_verbose_events [of writable blob path]
  have c: "pprint_vw_audit check_output writable model_file log_file path pred_file verbose
         vw_base_cmd =
       (case run_vw_audit_command check_output model_file log_file pred_file verbose
               vw_base_cmd of
          (out1, Inl e) \<Rightarrow> (out1, Inl e)
        | (out1, Inr vw_cmd_output) \<Rightarrow>
            (out1 @ fst (parse_audit_command writable vw_cmd_output path False),
             map_sum id (\<lambda>df. ()) (snd (parse_audit_command writable vw_cmd_output path False))))"
    by (simp add: pprint_vw_audit_def split: prod.splits sum.splits)
  have q: "filter is_print (fst (parse_audit_command writable blob0 path False)) = []" for blob0
    by (simp add: parse_quiet_events split: sum.splits)
  have d: "filter is_print
         (fst (pprint_vw_audit check_output writable model_file log_file path pred_file
                 verbose vw_base_cmd)) =
       fst (run_vw_audit_command check_output model_file log_file pred_file verbose
              vw_base_cmd)"
  proof -
    obtain out1 r where run:
      "run_vw_audit_command check_output model_file log_file pred_file verbose vw_base_cmd =
         (out1, r)"
      by (cases "run_vw_audit_command check_output model_file log_file pred_file verbose
                   vw_base_cmd")
    have p: "filter is_print out1 = out1"
      using run_events_print [of check_output model_file log_file pred_file verbose
          vw_base_cmd] run by simp
    show ?thesis
      unfolding c run by (cases r) (simp_all add: p q)
  qed
  from a b c d show ?thesis by (intro conjI)
qed

text \<open>
  C10. For a token that splits into more than four colon-separated parts, the record is
  made of the parts 0 to 3 and is the record of the first four parts alone; when the loops
  finish, the record collected for such a token of a scanned line is this one.
\<close>

theorem c10_extra_parts_discarded:
  assumes "4 < length parts"
  shows "coeff_record parts =
           Inr [(STR8 ''Namespace^Feature'', parts ! 0), (STR8 ''HashValue'', parts ! 1),
                (STR8 ''FeatureValue'', parts ! 2), (STR8 ''WeightValue'', parts ! 3)]
         \<and> coeff_record parts = coeff_record (take 4 parts)
         \<and> (\<forall>blob verbose coeff_list i.
               snd (process_lines verbose (map str_strip (str_splitlines blob)) 0 [] []) =
                 Inr coeff_list \<and>
               i < length (audit_tokens blob) \<and>
               str_split COLON (audit_tokens blob ! i) = parts
             \<longrightarrow> i < length coeff_list \<and>
                 coeff_list ! i =
                   [(STR8 ''Namespace^Feature'', parts ! 0), (STR8 ''HashValue'', parts ! 1),
                    (STR8 ''FeatureValue'', parts ! 2), (STR8 ''WeightValue'', parts ! 3)])"
proof (intro conjI allI impI)
  show a: "coeff_record parts =
           Inr [(STR8 ''Namespace^Feature'', parts ! 0), (STR8 ''HashValue'', parts ! 1),
                (STR8 ''FeatureValue'', parts ! 2), (STR8 ''WeightValue'', parts ! 3)]"
    using assms by (simp add: coeff_record_eq four_fields_def)
  show "coeff_record parts = coeff_record (take 4 parts)"
    using assms by (simp add: coeff_record_eq four_fields_def)
next
  fix blob verbose coeff_list i
  assume h: "snd (process_lines verbose (map str_strip (str_splitlines blob)) 0 [] []) =
                 Inr coeff_list \<and>
               i < length (audit_tokens blob) \<and>
               str_split COLON (audit_tokens blob ! i) = parts"
  then have cl: "coeff_list = map (\<lambda>t. four_fields (str_split COLON t)) (audit_tokens blob)"
    using collected_records [of verbose blob 0 "[]"] by (simp split: if_splits)
  from h show "i < length coeff_list"
    by (simp add: cl)
  from h show "coeff_list ! i =
                   [(STR8 ''Namespace^Feature'', parts ! 0), (STR8 ''HashValue'', parts ! 1),
                    (STR8 ''FeatureValue'', parts ! 2), (STR8 ''WeightValue'', parts ! 3)]"
    by (simp add: cl four_fields_def)
qed

theorem c10_extra_parts_discarded_witness:
  "coeff_record (str_split COLON (STR8 ''u:5:1:0.75:extra'')) =
     Inr [(STR8 ''Namespace^Feature'', STR8 ''u''), (STR8 ''HashValue'', STR8 ''5''),
          (STR8 ''FeatureValue'', STR8 ''1''), (STR8 ''WeightValue'', STR8 ''0.75'')]
   \<and> snd (process_lines False
            (map str_strip (str_splitlines
               (STR8 ''t:1:1:2'' @ [TAB] @ STR8 ''u:5:1:0.75:extra''))) 0 [] []) =
       Inr [four_fields [STR8 ''t'', STR8 ''1'', STR8 ''1'', STR8 ''2''],
            [(STR8 ''Namespace^Feature'', STR8 ''u''), (STR8 ''HashValue'', STR8 ''5''),
             (STR8 ''FeatureValue'', STR8 ''1''), (STR8 ''WeightValue'', STR8 ''0.75'')]]"
proof -
  let ?p = "[STR8 ''u'', STR8 ''5'', STR8 ''1'', STR8 ''0.75'', STR8 ''extra'']"
  have sp: "str_split COLON (STR8 ''u:5:1:0.75:extra'') = ?p"
    by (simp add: text_defs)
  have len: "4 < length ?p"
    by simp
  have b: "snd (process_lines False
            (map str_strip (str_splitlines
               (STR8 ''t:1:1:2'' @ [TAB] @ STR8 ''u:5:1:0.75:extra''))) 0 [] []) =
       Inr [four_fields [STR8 ''t'', STR8 ''1'', STR8 ''1'', STR8 ''2''],
            [(STR8 ''Namespace^Feature'', STR8 ''u''), (STR8 ''HashValue'', STR8 ''5''),
             (STR8 ''FeatureValue'', STR8 ''1''), (STR8 ''WeightValue'', STR8 ''0.75'')]]"
    by (simp add: text_defs loop_defs four_fields_def)
  from c10_extra_parts_discarded [OF len, THEN conjunct1] b show ?thesis
    unfolding sp by simp
qed

end
